theory Spec2Isabelle
  imports Main
begin

section \<open>Data model\<close>

text \<open>
  The board of \<^verbatim>\<open>App.tsx\<close> and of the Socket.IO server:
  \<^verbatim>\<open>
  interface BoardState {
    lanes: Record<LaneKey, string[]>;
    items: Record<string, BoardItem>;
    lastUpdated: number;
  }
  \<close>
  The server is plain JavaScript and stores whatever object a client sends, so a lane
  name is any string and an item is any object: a mapping from field names to values.
  Any of the three fields may be missing from a snapshot: \<^verbatim>\<open>board:update\<close> installs
  it as it is, and reads \<open>lastUpdated\<close> as \<open>incoming?.lastUpdated || 0\<close>. Timestamps are
  the integers of \<^verbatim>\<open>Date.now()\<close>; nothing checks the \<open>mtime\<close> or \<open>lastUpdated\<close> a
  client sends, so any integer can arrive, a negative one too.

  The mappings \<open>lanes\<close> and \<open>items\<close> hold the own properties of the two objects. A
  property read \<open>obj[k]\<close> also follows the prototype chain, and one write in the server,
  \<open>boardState.items[id] = ...\<close> with \<open>id\<close> equal to \<open>__proto__\<close>, replaces the prototype
  of the \<open>items\<close> object: \<open>items_proto\<close> is that replaced prototype, \<open>None\<close> as long as
  the prototype is \<open>Object.prototype\<close> (as it is for every parsed snapshot).
\<close>

datatype fieldval = Str string | StrList "string list"

type_synonym item = "string \<rightharpoonup> fieldval"

type_synonym patch = "string \<rightharpoonup> fieldval"

record BoardState =
  lanes :: "(string \<rightharpoonup> string list) option"
  items :: "(string \<rightharpoonup> item) option"
  lastUpdated :: "int option"
  items_proto :: "item option"

text \<open>The own properties of \<open>lanes\<close> and of \<open>items\<close>; none when the object is missing.\<close>

definition laneMap :: "BoardState \<Rightarrow> (string \<rightharpoonup> string list)" where
  "laneMap s = (case lanes s of None \<Rightarrow> Map.empty | Some L \<Rightarrow> L)"

definition itemMap :: "BoardState \<Rightarrow> (string \<rightharpoonup> item)" where
  "itemMap s = (case items s of None \<Rightarrow> Map.empty | Some m \<Rightarrow> m)"

text \<open>The payload of \<^verbatim>\<open>item:patch\<close>, destructured as \<open>{ id, patch, mtime }\<close>;
  every field may be missing.\<close>

record patch_msg =
  pm_id :: "string option"
  pm_patch :: "patch option"
  pm_mtime :: "int option"

text \<open>The payload of \<^verbatim>\<open>lanes:move\<close>, destructured as
  \<open>{ id, from, to, index, mtime }\<close>.\<close>

record move_msg =
  mv_id :: "string option"
  mv_from :: "string option"
  mv_to :: "string option"
  mv_index :: "int option"
  mv_mtime :: "int option"

text \<open>What a handler sends: \<open>socket.emit\<close> answers the sender,
  \<open>socket.broadcast.emit\<close> reaches every other connection.\<close>

datatype event =
    Reply_board_state BoardState
  | Bcast_board_state BoardState
  | Bcast_item_patch_apply string patch int
  | Bcast_lanes_move_apply string string string "int option" int

text \<open>The exception a handler can throw.\<close>

datatype error = TypeError

section \<open>JavaScript primitives the handlers use\<close>

text \<open>\<open>!s\<close> on a string field: a missing field and the empty string are falsy.\<close>

definition truthy :: "string option \<Rightarrow> bool" where
  "truthy v = (case v of None \<Rightarrow> False | Some s \<Rightarrow> s \<noteq> [])"

text \<open>\<open>n || d\<close> on a number field: a missing field and \<open>0\<close> are falsy.\<close>

definition orElse :: "int option \<Rightarrow> int \<Rightarrow> int" where
  "orElse v d = (case v of None \<Rightarrow> d | Some n \<Rightarrow> if n = 0 then d else n)"

text \<open>
  The property names every object inherits from \<open>Object.prototype\<close>. Each reads as a
  function, except \<open>__proto__\<close>, an accessor that reads as the object's prototype: all of
  them truthy, none of them an array.
\<close>

definition objectPrototype :: "string list" where
  "objectPrototype =
     [''constructor'', ''__defineGetter__'', ''__defineSetter__'', ''hasOwnProperty'',
      ''__lookupGetter__'', ''__lookupSetter__'', ''isPrototypeOf'', ''propertyIsEnumerable'',
      ''toString'', ''valueOf'', ''__proto__'', ''toLocaleString'']"

text \<open>
  \<open>boardState.lanes[k] || []\<close>, as an array. Reading a property of a missing \<open>lanes\<close>
  throws. An own lane is an array, truthy even when empty. A name that \<open>lanes\<close> only
  inherits reads as a function or as \<open>Object.prototype\<close>: \<open>|| []\<close> keeps it, and both
  uses of the result, \<open>.filter(...)\<close> and the array spread \<open>[...x]\<close>, throw a TypeError on
  it. Any other name reads as \<open>undefined\<close> and gives the empty array.
\<close>

definition laneOrEmpty :: "(string \<rightharpoonup> string list) option \<Rightarrow> string \<Rightarrow> error + string list" where
  "laneOrEmpty ls k =
     (case ls of
        None \<Rightarrow> Inl TypeError
      | Some L \<Rightarrow>
          (case L k of
             Some xs \<Rightarrow> Inr xs
           | None \<Rightarrow> if k \<in> set objectPrototype then Inl TypeError else Inr []))"

text \<open>
  \<open>arr.splice(index, 0, x)\<close>: the start position is \<open>max (len + index) 0\<close> for a
  negative index and \<open>min index len\<close> otherwise; nothing is deleted.
\<close>

definition splice_start :: "int \<Rightarrow> nat \<Rightarrow> nat" where
  "splice_start index len =
     (if index < 0 then nat (max (int len + index) 0) else nat (min index (int len)))"

definition splice_insert :: "'a list \<Rightarrow> int \<Rightarrow> 'a \<Rightarrow> 'a list" where
  "splice_insert arr index x =
     (let start = splice_start index (length arr)
      in take start arr @ [x] @ drop start arr)"

text \<open>
  \<open>if (typeof index === 'number') toArr.splice(index, 0, id); else toArr.unshift(id);\<close>
\<close>

definition insert_at :: "string list \<Rightarrow> int option \<Rightarrow> string \<Rightarrow> string list" where
  "insert_at toArr index i =
     (case index of Some k \<Rightarrow> splice_insert toArr k i | None \<Rightarrow> i # toArr)"

text \<open>
  The object spread \<open>{ ...v }\<close> of a field value copies its own enumerable properties:
  the characters of a string, or the elements of an array, under the decimal indices
  \<open>0\<close>, \<open>1\<close>, ... as keys.
\<close>

fun dec :: "nat \<Rightarrow> string" where
  "dec n = (if n < 10 then [char_of (48 + n)] else dec (n div 10) @ [char_of (48 + n mod 10)])"

definition indexed :: "fieldval list \<Rightarrow> item" where
  "indexed vs = map_of (zip (map dec [0..<length vs]) vs)"

fun own_props :: "fieldval \<Rightarrow> item" where
  "own_props (Str s) = indexed (map (\<lambda>c. Str [c]) s)"
| "own_props (StrList xs) = indexed (map Str xs)"

text \<open>
  What \<open>boardState.items[k]\<close> reads. Reading a property of a missing \<open>items\<close> throws.
  Otherwise the chain is searched in order: the own properties of \<open>items\<close> (an item), the
  own properties of a replaced prototype (a field value of an earlier patch), and
  \<open>Object.prototype\<close> (the accessor \<open>__proto__\<close>, or a built-in function).
\<close>

datatype looked = Own item | Field fieldval | ProtoAccessor | Builtin | Undefined

definition item_get :: "BoardState \<Rightarrow> string \<Rightarrow> error + looked" where
  "item_get s k =
     (case items s of
        None \<Rightarrow> Inl TypeError
      | Some m \<Rightarrow>
          Inr (case m k of
                 Some it \<Rightarrow> Own it
               | None \<Rightarrow>
                   (case (case items_proto s of None \<Rightarrow> None | Some n \<Rightarrow> n k) of
                      Some v \<Rightarrow> Field v
                    | None \<Rightarrow>
                        if k = ''__proto__'' then ProtoAccessor
                        else if k \<in> set objectPrototype then Builtin
                        else Undefined)))"

text \<open>
  \<open>{ ...x }\<close> for what was read: an item spreads as itself, a field value as its
  indexed characters or elements, a built-in function and \<open>undefined\<close> as the empty
  object, and the accessor \<open>__proto__\<close> as the own properties of the prototype it returns.
\<close>

definition spread :: "BoardState \<Rightarrow> looked \<Rightarrow> item" where
  "spread s x =
     (case x of
        Own it \<Rightarrow> it
      | Field v \<Rightarrow> own_props v
      | ProtoAccessor \<Rightarrow> (case items_proto s of None \<Rightarrow> Map.empty | Some n \<Rightarrow> n)
      | Builtin \<Rightarrow> Map.empty
      | Undefined \<Rightarrow> Map.empty)"

text \<open>\<open>!x\<close> for what was read: \<open>undefined\<close> and the empty string are falsy.\<close>

definition falsy :: "looked \<Rightarrow> bool" where
  "falsy x = (x = Undefined \<or> x = Field (Str []))"

section \<open>The server\<close>

text \<open>
  The state the server starts with; \<open>t0\<close> is the reading of \<^verbatim>\<open>Date.now()\<close> at
  start-up.
\<close>

definition initState :: "int \<Rightarrow> BoardState" where
  "initState t0 =
     \<lparr> lanes = Some [''Unassigned'' \<mapsto> [], ''New York'' \<mapsto> [], ''Curacao'' \<mapsto> [],
                      ''Piarco'' \<mapsto> [], ''Maiquetia'' \<mapsto> []],
       items = Some Map.empty,
       lastUpdated = Some t0,
       items_proto = None \<rparr>"

text \<open>
  Each handler takes the stored state and the payload and returns the new stored state
  with the events it emits, or the exception it throws. Where a handler reads the clock,
  \<open>now\<close> is that reading.
\<close>

text \<open>
  \<^verbatim>\<open>socket.on('board:pull', () => socket.emit('board:state', boardState));\<close>
\<close>

definition board_pull :: "BoardState \<Rightarrow> BoardState \<times> event list" where
  "board_pull boardState = (boardState, [Reply_board_state boardState])"

text \<open>
  \<^verbatim>\<open>
  socket.on('board:update', (incoming) => {
    if ((incoming?.lastUpdated || 0) >= (boardState?.lastUpdated || 0)) {
      boardState = incoming;
      socket.broadcast.emit('board:state', boardState);
    }
  });
  \<close>
\<close>

definition board_update :: "BoardState \<Rightarrow> BoardState \<Rightarrow> BoardState \<times> event list" where
  "board_update boardState incoming =
     (if orElse (lastUpdated incoming) 0 \<ge> orElse (lastUpdated boardState) 0
      then (incoming, [Bcast_board_state incoming])
      else (boardState, []))"

text \<open>
  \<^verbatim>\<open>
  socket.on('item:patch', ({ id, patch, mtime }) => {
    if (!id || !patch || !boardState.items[id]) return;
    boardState.items[id] = { ...boardState.items[id], ...patch };
    boardState.lastUpdated = mtime || Date.now();
    socket.broadcast.emit('item:patch:apply', { id, patch, mtime: boardState.lastUpdated });
  });
  \<close>
  A patch is an object, truthy whenever present. The guard reads \<open>boardState.items[id]\<close>
  only when \<open>id\<close> and \<open>patch\<close> are truthy, and that read throws when the board has no
  \<open>items\<close>. The spread \<open>{ ...x, ...patch }\<close> is the map \<open>spread x ++ patch\<close>. The
  assignment writes an own property of \<open>items\<close>, except where \<open>id\<close> resolved to the
  accessor \<open>__proto__\<close> of \<open>Object.prototype\<close>: its setter makes the new object the
  prototype of \<open>items\<close> and adds no key.
\<close>

definition item_patch ::
  "int \<Rightarrow> BoardState \<Rightarrow> patch_msg \<Rightarrow> error + BoardState \<times> event list" where
  "item_patch now boardState m =
     (case (pm_id m, pm_patch m) of
        (Some i, Some p) \<Rightarrow>
          (if \<not> truthy (Some i) then Inr (boardState, [])
           else case item_get boardState i of
             Inl e \<Rightarrow> Inl e
           | Inr x \<Rightarrow>
               (if falsy x then Inr (boardState, [])
                else
                  (let new = spread boardState x ++ p;
                       t = orElse (pm_mtime m) now
                   in Inr ((if x = ProtoAccessor
                            then boardState \<lparr> items_proto := Some new \<rparr>
                            else boardState \<lparr> items := Some ((itemMap boardState)(i \<mapsto> new)) \<rparr>)
                             \<lparr> lastUpdated := Some t \<rparr>,
                           [Bcast_item_patch_apply i p t]))))
      | _ \<Rightarrow> Inr (boardState, []))"

text \<open>
  \<^verbatim>\<open>
  socket.on('lanes:move', ({ id, from, to, index, mtime }) => {
    if (!id || !from || !to) return;
    const fromArr = (boardState.lanes[from] || []).filter((x) => x !== id);
    const toArr = [...(boardState.lanes[to] || [])];
    if (typeof index === 'number') toArr.splice(index, 0, id); else toArr.unshift(id);
    boardState.lanes = { ...boardState.lanes, [from]: fromArr, [to]: toArr };
    boardState.lastUpdated = mtime || Date.now();
    socket.broadcast.emit('lanes:move:apply', { id, from, to, index, mtime: boardState.lastUpdated });
  });
  \<close>
  The two lane reads come first and either can throw, before anything is assigned. In
  the object literal the key \<open>[to]\<close> is written after \<open>[from]\<close>, as in the map update
  below: when both name the same lane, \<open>toArr\<close> is what is stored. Computed keys are own
  properties, whatever their name.
\<close>

definition lanes_move ::
  "int \<Rightarrow> BoardState \<Rightarrow> move_msg \<Rightarrow> error + BoardState \<times> event list" where
  "lanes_move now boardState m =
     (case (mv_id m, mv_from m, mv_to m) of
        (Some i, Some from, Some to) \<Rightarrow>
          (if \<not> truthy (Some i) \<or> \<not> truthy (Some from) \<or> \<not> truthy (Some to)
           then Inr (boardState, [])
           else case laneOrEmpty (lanes boardState) from of
             Inl e \<Rightarrow> Inl e
           | Inr fromLane \<Rightarrow>
               (case laneOrEmpty (lanes boardState) to of
                  Inl e \<Rightarrow> Inl e
                | Inr toLane \<Rightarrow>
                    (let fromArr = filter (\<lambda>x. x \<noteq> i) fromLane;
                         toArr = insert_at toLane (mv_index m) i;
                         t = orElse (mv_mtime m) now
                     in Inr (boardState
                               \<lparr> lanes := Some ((laneMap boardState)(from \<mapsto> fromArr, to \<mapsto> toArr)),
                                 lastUpdated := Some t \<rparr>,
                             [Bcast_lanes_move_apply i from to (mv_index m) t]))))
      | _ \<Rightarrow> Inr (boardState, []))"

text \<open>The messages of one connection, and the server's dispatch on them.\<close>

datatype msg =
    Board_pull
  | Board_update BoardState
  | Item_patch patch_msg
  | Lanes_move move_msg

fun handle :: "int \<Rightarrow> BoardState \<Rightarrow> msg \<Rightarrow> error + BoardState \<times> event list" where
  "handle now s Board_pull = Inr (board_pull s)"
| "handle now s (Board_update incoming) = Inr (board_update s incoming)"
| "handle now s (Item_patch m) = item_patch now s m"
| "handle now s (Lanes_move m) = lanes_move now s m"

text \<open>
  The event loop handles one message to completion before the next; a run is a list of
  messages, each with the clock reading at its handling. Nothing catches an exception
  of a handler: it ends the run, with the store as the handler found it (both throwing
  reads come before any assignment). \<open>run\<close> is the store at the end of the run and
  \<open>run_error\<close> the exception that ended it, if one did.
\<close>

fun run :: "BoardState \<Rightarrow> (int \<times> msg) list \<Rightarrow> BoardState" where
  "run s [] = s"
| "run s ((now, m) # ms) =
     (case handle now s m of Inl e \<Rightarrow> s | Inr r \<Rightarrow> run (fst r) ms)"


section \<open>The client mirror\<close>

text \<open>
  The handlers of \<open>useRealtimeSync\<close> and the functions of \<open>App\<close> update the mirror
  through \<open>setState\<close>; each is modelled as the function from the previous mirror to
  the next one, or to the exception it throws. The payloads are those the server
  broadcasts.

  \<^verbatim>\<open>
  socket.on("item:patch:apply", ({ id, patch, mtime }: any) => {
    setState((prev) => ({
      ...prev,
      items: { ...prev.items, [id]: { ...prev.items[id], ...patch } },
      lastUpdated: mtime || Date.now(),
    }));
  });
  \<close>
  \<open>prev.items[id]\<close> throws when the mirror has no \<open>items\<close>. Otherwise
  \<open>{ ...prev.items[id], ...patch }\<close> is built whatever was read, \<open>undefined\<close> spreading
  as the empty object, and stored under the computed key, an own property of a fresh
  object.
\<close>

definition item_patch_apply ::
  "int \<Rightarrow> BoardState \<Rightarrow> string \<Rightarrow> patch \<Rightarrow> int option \<Rightarrow> error + BoardState" where
  "item_patch_apply now prev i p mtime =
     (case item_get prev i of
        Inl e \<Rightarrow> Inl e
      | Inr x \<Rightarrow>
          Inr (prev \<lparr> items := Some ((itemMap prev)(i \<mapsto> spread prev x ++ p)),
                      lastUpdated := Some (orElse mtime now),
                      items_proto := None \<rparr>))"

text \<open>
  \<^verbatim>\<open>
  socket.on("lanes:move:apply", ({ id, from, to, index, mtime }: any) => {
    setState((prev) => {
      const fromArr = prev.lanes[from].filter((x) => x !== id);
      const toArr = [...prev.lanes[to]];
      if (typeof index === "number") toArr.splice(index, 0, id);
      else toArr.unshift(id);
      return {
        ...prev,
        lanes: { ...prev.lanes, [from]: fromArr, [to]: toArr },
        lastUpdated: mtime || Date.now(),
      };
    });
  });
  \<close>
  \<open>prev.lanes[from].filter(...)\<close> and \<open>[...prev.lanes[to]]\<close> read the lane with no
  default: on a mirror without \<open>lanes\<close>, and on a lane that is no own property of it
  (\<open>undefined\<close>, or an inherited function), calling \<open>filter\<close> or spreading into an array
  throws a TypeError.
\<close>

definition lanes_move_apply ::
  "int \<Rightarrow> BoardState \<Rightarrow> string \<Rightarrow> string \<Rightarrow> string \<Rightarrow> int option \<Rightarrow> int option \<Rightarrow> error + BoardState" where
  "lanes_move_apply now prev i from to index mtime =
     (case lanes prev of
        None \<Rightarrow> Inl TypeError
      | Some L \<Rightarrow>
          (case L from of
             None \<Rightarrow> Inl TypeError
           | Some fromLane \<Rightarrow>
               (case L to of
                  None \<Rightarrow> Inl TypeError
                | Some toLane \<Rightarrow>
                    (let fromArr = filter (\<lambda>x. x \<noteq> i) fromLane;
                         toArr = insert_at toLane index i
                     in Inr (prev \<lparr> lanes := Some (L(from \<mapsto> fromArr, to \<mapsto> toArr)),
                                    lastUpdated := Some (orElse mtime now) \<rparr>)))))"


section \<open>The board's invariants\<close>

text \<open>The ids that appear in some lane's sequence.\<close>

definition laneIds :: "BoardState \<Rightarrow> string set" where
  "laneIds s = {x. \<exists>l xs. laneMap s l = Some xs \<and> x \<in> set xs}"

text \<open>The key set of \<open>items\<close> is the set of its own keys.\<close>

definition ref_integrity :: "BoardState \<Rightarrow> bool" where
  "ref_integrity s = (laneIds s = dom (itemMap s))"

text \<open>An id sits in lane \<open>l\<close> exactly once and in no other lane.\<close>

definition only_in_lane :: "BoardState \<Rightarrow> string \<Rightarrow> string \<Rightarrow> bool" where
  "only_in_lane s i l =
     ((\<exists>xs. laneMap s l = Some xs \<and> count_list xs i = 1) \<and>
      (\<forall>l' xs'. l' \<noteq> l \<and> laneMap s l' = Some xs' \<longrightarrow> i \<notin> set xs'))"

definition single_lane :: "BoardState \<Rightarrow> bool" where
  "single_lane s = (\<forall>i. i \<in> dom (itemMap s) \<longrightarrow> (\<exists>l. only_in_lane s i l))"

section \<open>Accepted messages and well-formed traffic\<close>

text \<open>
  The timestamp the server compares is \<open>boardState?.lastUpdated || 0\<close>.
  \<^verbatim>\<open>board:update\<close> is accepted when the snapshot's timestamp is not older than the
  stored one; \<^verbatim>\<open>lanes:move\<close> passes its guard when \<open>id\<close>, \<open>from\<close> and \<open>to\<close> are all
  truthy.
\<close>

definition stamp :: "BoardState \<Rightarrow> int" where
  "stamp s = orElse (lastUpdated s) 0"

definition update_accepted :: "BoardState \<Rightarrow> BoardState \<Rightarrow> bool" where
  "update_accepted s c = (stamp c \<ge> stamp s)"

definition move_accepted :: "move_msg \<Rightarrow> bool" where
  "move_accepted m = (truthy (mv_id m) \<and> truthy (mv_from m) \<and> truthy (mv_to m))"

text \<open>
  A lane name the move handler can read: the board has \<open>lanes\<close>, and the name is an
  own lane or is not inherited from \<open>Object.prototype\<close>. \<open>laneOf\<close> is what it reads.
\<close>

definition lane_readable :: "BoardState \<Rightarrow> string \<Rightarrow> bool" where
  "lane_readable s k = (lanes s \<noteq> None \<and> (laneMap s k \<noteq> None \<or> k \<notin> set objectPrototype))"

definition laneOf :: "BoardState \<Rightarrow> string \<Rightarrow> string list" where
  "laneOf s k = (case laneMap s k of None \<Rightarrow> [] | Some xs \<Rightarrow> xs)"

text \<open>The lanes after an applied move of \<open>i\<close> from \<open>f\<close> to \<open>t\<close>:
  \<open>{ ...boardState.lanes, [from]: fromArr, [to]: toArr }\<close>.\<close>

definition moved ::
  "BoardState \<Rightarrow> string \<Rightarrow> string \<Rightarrow> string \<Rightarrow> int option \<Rightarrow> (string \<rightharpoonup> string list)" where
  "moved s i f t ix =
     (laneMap s)(f \<mapsto> filter (\<lambda>x. x \<noteq> i) (laneOf s f),
                 t \<mapsto> insert_at (laneOf s t) ix i)"

text \<open>
  An id that \<open>items\<close> does not have but inherits, from \<open>Object.prototype\<close> or from a
  replaced prototype: the guard of \<^verbatim>\<open>item:patch\<close> lets such an id through.
\<close>

definition inherited :: "BoardState \<Rightarrow> string \<Rightarrow> bool" where
  "inherited s i =
     (itemMap s i = None \<and>
      (i \<in> set objectPrototype \<or> (case items_proto s of None \<Rightarrow> False | Some n \<Rightarrow> n i \<noteq> None)))"

text \<open>
  The server validates neither the snapshot of a \<^verbatim>\<open>board:update\<close> nor the ids and
  lanes of the other messages. The two predicates below say what a message must satisfy,
  in the state it arrives in, for the board's invariants to survive it:
  \<^item> \<open>known_ref\<close>: an accepted snapshot has referential integrity, a move that passes
    the guard names an id that is a key of \<open>items\<close>, and no patch names an id that
    \<open>items\<close> only inherits;
  \<^item> \<open>from_holds\<close>: an accepted snapshot has single-lane membership, a move that passes
    the guard with an id that is a key of \<open>items\<close> names two different lanes, the first
    of which holds the id, and no patch names an id that \<open>items\<close> only inherits.
\<close>

fun known_ref :: "BoardState \<Rightarrow> msg \<Rightarrow> bool" where
  "known_ref s (Board_update c) = (update_accepted s c \<longrightarrow> ref_integrity c)"
| "known_ref s (Lanes_move m) =
     (case mv_id m of Some i \<Rightarrow> move_accepted m \<longrightarrow> i \<in> dom (itemMap s) | None \<Rightarrow> True)"
| "known_ref s (Item_patch m) =
     (case pm_id m of Some i \<Rightarrow> \<not> inherited s i | None \<Rightarrow> True)"
| "known_ref s Board_pull = True"

fun from_holds :: "BoardState \<Rightarrow> msg \<Rightarrow> bool" where
  "from_holds s (Board_update c) = (update_accepted s c \<longrightarrow> single_lane c)"
| "from_holds s (Lanes_move m) =
     (case (mv_id m, mv_from m, mv_to m) of
        (Some i, Some f, Some t) \<Rightarrow>
          move_accepted m \<and> i \<in> dom (itemMap s) \<longrightarrow> f \<noteq> t \<and> i \<in> set (laneOf s f)
      | _ \<Rightarrow> True)"
| "from_holds s (Item_patch m) =
     (case pm_id m of Some i \<Rightarrow> \<not> inherited s i | None \<Rightarrow> True)"
| "from_holds s Board_pull = True"

text \<open>Every message of a run satisfies \<open>P\<close> in the state it arrives in.\<close>

fun run_ok :: "(BoardState \<Rightarrow> msg \<Rightarrow> bool) \<Rightarrow> BoardState \<Rightarrow> (int \<times> msg) list \<Rightarrow> bool" where
  "run_ok P s [] = True"
| "run_ok P s ((now, m) # ms) =
     (P s m \<and> (case handle now s m of Inl e \<Rightarrow> True | Inr r \<Rightarrow> run_ok P (fst r) ms))"

section \<open>Example boards and messages\<close>

text \<open>The scenario of the specification: item \<open>I1\<close> with callsign \<open>JBU123\<close>.\<close>

definition item_JBU123 :: item where
  "item_JBU123 =
     [''id'' \<mapsto> Str ''I1'', ''callsign'' \<mapsto> Str ''JBU123'', ''altitude'' \<mapsto> Str []]"

definition board_I1 :: "int \<Rightarrow> BoardState" where
  "board_I1 t =
     \<lparr> lanes = Some [''Unassigned'' \<mapsto> [''I1''], ''New York'' \<mapsto> [], ''Curacao'' \<mapsto> [],
                      ''Piarco'' \<mapsto> [], ''Maiquetia'' \<mapsto> []],
       items = Some [''I1'' \<mapsto> item_JBU123],
       lastUpdated = Some t,
       items_proto = None \<rparr>"

definition move_I1 :: "string \<Rightarrow> string \<Rightarrow> int option \<Rightarrow> int option \<Rightarrow> move_msg" where
  "move_I1 f t ix mt =
     \<lparr> mv_id = Some ''I1'', mv_from = Some f, mv_to = Some t, mv_index = ix, mv_mtime = mt \<rparr>"

definition patch_I1 :: "int option \<Rightarrow> patch_msg" where
  "patch_I1 mt =
     \<lparr> pm_id = Some ''I1'', pm_patch = Some [''altitude'' \<mapsto> Str ''FL350''], pm_mtime = mt \<rparr>"

text \<open>The same patch addressed to another id.\<close>

definition patch_of :: "string \<Rightarrow> int option \<Rightarrow> patch_msg" where
  "patch_of i mt =
     \<lparr> pm_id = Some i, pm_patch = Some [''altitude'' \<mapsto> Str ''FL350''], pm_mtime = mt \<rparr>"

text \<open>The board of the move example: \<open>Unassigned = [I1, I2]\<close>, \<open>Piarco = [I3]\<close>.\<close>

definition board_three :: "int \<Rightarrow> BoardState" where
  "board_three t =
     \<lparr> lanes = Some [''Unassigned'' \<mapsto> [''I1'', ''I2''], ''New York'' \<mapsto> [], ''Curacao'' \<mapsto> [],
                      ''Piarco'' \<mapsto> [''I3''], ''Maiquetia'' \<mapsto> []],
       items = Some [''I1'' \<mapsto> item_JBU123, ''I2'' \<mapsto> Map.empty, ''I3'' \<mapsto> Map.empty],
       lastUpdated = Some t,
       items_proto = None \<rparr>"

section \<open>Lemmas about the primitives\<close>

lemmas eval_defs = initState_def board_I1_def move_I1_def patch_I1_def patch_of_def
  item_JBU123_def board_pull_def board_update_def item_patch_def lanes_move_def truthy_def
  orElse_def laneOrEmpty_def insert_at_def splice_insert_def splice_start_def Let_def
  stamp_def update_accepted_def move_accepted_def board_three_def laneMap_def itemMap_def
  item_get_def spread_def falsy_def objectPrototype_def laneOf_def inherited_def

lemma proto_inherited: "''__proto__'' \<in> set objectPrototype"
  by (simp add: objectPrototype_def)

lemma orElse_zero: "orElse v 0 = (case v of None \<Rightarrow> 0 | Some n \<Rightarrow> n)"
  by (simp add: orElse_def split: option.splits)

lemma set_splice_insert: "set (splice_insert xs k x) = insert x (set xs)"
proof -
  have "set (take n xs) \<union> set (drop n xs) = set xs" for n
    by (metis append_take_drop_id set_append)
  then show ?thesis by (auto simp: splice_insert_def Let_def)
qed

lemma set_insert_at: "set (insert_at xs ix i) = insert i (set xs)"
  by (simp add: insert_at_def set_splice_insert split: option.splits)

lemma count_take_drop: "count_list (take n xs) j + count_list (drop n xs) j = count_list xs j"
  by (metis append_take_drop_id count_list_append)

lemma count_splice_insert:
  "count_list (splice_insert xs k x) j = count_list xs j + (if j = x then 1 else 0)"
proof -
  have "count_list (splice_insert xs k x) j =
        (count_list (take (splice_start k (length xs)) xs) j +
         count_list (drop (splice_start k (length xs)) xs) j) + (if j = x then 1 else 0)"
    by (simp add: splice_insert_def Let_def)
  then show ?thesis by (simp only: count_take_drop)
qed

lemma count_insert_at:
  "count_list (insert_at xs ix i) j = count_list xs j + (if j = i then 1 else 0)"
  by (simp add: insert_at_def count_splice_insert split: option.splits)

lemma count_filter_neq:
  "count_list (filter (\<lambda>x. x \<noteq> i) xs) j = (if j = i then 0 else count_list xs j)"
  by (induction xs) auto


section \<open>Lemmas about the handlers\<close>

subsection \<open>The lane move: dropped, thrown or applied\<close>

lemma laneOrEmpty_readable:
  "laneOrEmpty (lanes s) k = (if lane_readable s k then Inr (laneOf s k) else Inl TypeError)"
  by (simp add: laneOrEmpty_def lane_readable_def laneOf_def laneMap_def split: option.splits)

lemma lanes_move_dropped: "\<not> move_accepted m \<Longrightarrow> lanes_move now s m = Inr (s, [])"
  by (auto simp: lanes_move_def move_accepted_def truthy_def split: option.splits)

lemma move_accepted_fields:
  "move_accepted m \<Longrightarrow> \<exists>i f t. mv_id m = Some i \<and> mv_from m = Some f \<and> mv_to m = Some t"
  by (auto simp: move_accepted_def truthy_def split: option.splits)

lemma lanes_move_thrown:
  assumes "move_accepted m" "mv_from m = Some f" "mv_to m = Some t"
    and "\<not> (lane_readable s f \<and> lane_readable s t)"
  shows "lanes_move now s m = Inl TypeError"
  using assms move_accepted_fields [OF assms(1)]
  by (auto simp: lanes_move_def move_accepted_def laneOrEmpty_readable)

lemma lanes_move_moved:
  assumes "move_accepted m" "mv_id m = Some i" "mv_from m = Some f" "mv_to m = Some t"
    and "lane_readable s f" "lane_readable s t"
  shows "lanes_move now s m =
           Inr (s \<lparr> lanes := Some (moved s i f t (mv_index m)),
                    lastUpdated := Some (orElse (mv_mtime m) now) \<rparr>,
                [Bcast_lanes_move_apply i f t (mv_index m) (orElse (mv_mtime m) now)])"
  using assms
  by (simp add: lanes_move_def move_accepted_def moved_def Let_def laneOrEmpty_readable)

lemma lanes_move_result:
  assumes "lanes_move now s m = Inr (s', evs)"
  shows "(s' = s \<and> evs = []) \<or>
         (\<exists>i f t. move_accepted m \<and> mv_id m = Some i \<and> mv_from m = Some f \<and> mv_to m = Some t \<and>
            lane_readable s f \<and> lane_readable s t \<and>
            s' = s \<lparr> lanes := Some (moved s i f t (mv_index m)),
                     lastUpdated := Some (orElse (mv_mtime m) now) \<rparr> \<and>
            evs = [Bcast_lanes_move_apply i f t (mv_index m) (orElse (mv_mtime m) now)])"
proof (cases "move_accepted m")
  case False
  with assms show ?thesis by (simp add: lanes_move_dropped)
next
  case True
  then obtain i f t where flds: "mv_id m = Some i" "mv_from m = Some f" "mv_to m = Some t"
    using move_accepted_fields by blast
  show ?thesis
  proof (cases "lane_readable s f \<and> lane_readable s t")
    case False
    from lanes_move_thrown [OF True flds(2,3) False] assms show ?thesis by simp
  next
    case r: True
    then have "lane_readable s f" "lane_readable s t" by simp_all
    from lanes_move_moved [OF True flds this] assms True flds r show ?thesis by simp
  qed
qed

subsection \<open>The item patch: dropped, thrown or applied\<close>

lemma item_patch_lanes:
  "item_patch now s m = Inr (s', evs) \<Longrightarrow> lanes s' = lanes s"
  by (auto simp: item_patch_def Let_def split: option.splits sum.splits if_splits)

lemma item_patch_dom:
  assumes "item_patch now s m = Inr (s', evs)"
    and "\<And>i. pm_id m = Some i \<Longrightarrow> \<not> inherited s i"
  shows "dom (itemMap s') = dom (itemMap s)"
proof (cases "evs = []")
  case True
  with assms(1) have "s' = s"
    by (auto simp: item_patch_def Let_def split: option.splits sum.splits if_splits)
  then show ?thesis by simp
next
  case False
  with assms(1) obtain i p x where ip: "pm_id m = Some i" "pm_patch m = Some p"
    and x: "item_get s i = Inr x" "\<not> falsy x"
    and s': "s' = (if x = ProtoAccessor then s \<lparr> items_proto := Some (spread s x ++ p) \<rparr>
                   else s \<lparr> items := Some ((itemMap s)(i \<mapsto> spread s x ++ p)) \<rparr>)
                  \<lparr> lastUpdated := Some (orElse (pm_mtime m) now) \<rparr>"
    by (auto simp: item_patch_def Let_def split: option.splits sum.splits if_splits)
  from assms(2) [OF ip(1)] x proto_inherited have "\<exists>it. x = Own it"
    by (auto simp: item_get_def inherited_def falsy_def itemMap_def
             split: option.splits if_splits)
  then obtain it where "x = Own it" by blast
  with x(1) have "itemMap s i = Some it"
    by (auto simp: item_get_def itemMap_def split: option.splits if_splits)
  with s' \<open>x = Own it\<close> show ?thesis by (auto simp: itemMap_def)
qed

lemma item_patch_applied_stamp:
  "item_patch now s m = Inr (s', ev # evs) \<Longrightarrow>
   lastUpdated s' = Some (orElse (pm_mtime m) now)"
  by (auto simp: item_patch_def Let_def split: option.splits sum.splits if_splits)

lemma item_patch_own:
  assumes "pm_id m = Some i" "pm_patch m = Some p" "i \<noteq> []" "items s = Some its" "its i = Some it"
  shows "item_patch now s m =
           Inr (s \<lparr> items := Some (its(i \<mapsto> it ++ p)),
                    lastUpdated := Some (orElse (pm_mtime m) now) \<rparr>,
                [Bcast_item_patch_apply i p (orElse (pm_mtime m) now)])"
  using assms
  by (simp add: item_patch_def truthy_def item_get_def falsy_def spread_def itemMap_def Let_def)

subsection \<open>The ids in the lanes after a move\<close>

lemma moved_to: "moved s i f t ix t = Some (insert_at (laneOf s t) ix i)"
  by (simp add: moved_def)

lemma moved_from:
  "f \<noteq> t \<Longrightarrow> moved s i f t ix f = Some (filter (\<lambda>x. x \<noteq> i) (laneOf s f))"
  by (simp add: moved_def)

lemma moved_other: "l \<noteq> f \<Longrightarrow> l \<noteq> t \<Longrightarrow> moved s i f t ix l = laneMap s l"
  by (simp add: moved_def)

lemma moved_has_id:
  assumes "laneMap s' = moved s i f t ix"
  shows "i \<in> laneIds s'"
proof -
  have "laneMap s' t = Some (insert_at (laneOf s t) ix i)" using assms by (simp add: moved_to)
  moreover have "i \<in> set (insert_at (laneOf s t) ix i)" by (simp add: set_insert_at)
  ultimately show ?thesis unfolding laneIds_def by blast
qed

lemma moved_upper:
  assumes "laneMap s' = moved s i f t ix"
  shows "laneIds s' \<subseteq> insert i (laneIds s)"
proof
  fix x assume "x \<in> laneIds s'"
  then obtain l xs where l: "moved s i f t ix l = Some xs" "x \<in> set xs"
    using assms by (auto simp: laneIds_def)
  show "x \<in> insert i (laneIds s)"
  proof (cases "x = i")
    case True then show ?thesis by simp
  next
    case False
    have "\<exists>ys. laneMap s l = Some ys \<and> x \<in> set ys"
    proof (cases "l = t")
      case True
      with l False have "x \<in> set (laneOf s t)" by (auto simp: moved_to set_insert_at)
      with True show ?thesis by (cases "laneMap s t") (simp_all add: laneOf_def)
    next
      case nt: False
      show ?thesis
      proof (cases "l = f")
        case True
        with l nt have "x \<in> set (laneOf s f)" by (auto simp: moved_from)
        with True show ?thesis by (cases "laneMap s f") (simp_all add: laneOf_def)
      next
        case False
        with nt l show ?thesis by (simp add: moved_other)
      qed
    qed
    then show ?thesis unfolding laneIds_def by blast
  qed
qed

lemma moved_lower:
  assumes "laneMap s' = moved s i f t ix"
  shows "laneIds s - {i} \<subseteq> laneIds s'"
proof
  fix x assume "x \<in> laneIds s - {i}"
  then obtain l xs where l: "laneMap s l = Some xs" "x \<in> set xs" and ne: "x \<noteq> i"
    by (auto simp: laneIds_def)
  have "\<exists>ys. moved s i f t ix l = Some ys \<and> x \<in> set ys"
  proof (cases "l = t")
    case True
    with l have "x \<in> set (insert_at (laneOf s t) ix i)"
      by (simp add: set_insert_at laneOf_def)
    with True show ?thesis by (simp add: moved_to)
  next
    case nt: False
    show ?thesis
    proof (cases "l = f")
      case True
      with l ne have "x \<in> set (filter (\<lambda>x. x \<noteq> i) (laneOf s f))" by (simp add: laneOf_def)
      with True nt show ?thesis by (simp add: moved_from del: set_filter)
    next
      case False
      with nt l show ?thesis by (simp add: moved_other)
    qed
  qed
  with assms show "x \<in> laneIds s'" unfolding laneIds_def by auto
qed

lemma laneIds_moved:
  assumes "laneMap s' = moved s i f t ix" "i \<in> laneIds s"
  shows "laneIds s' = laneIds s"
  using moved_has_id [OF assms(1)] moved_upper [OF assms(1)] moved_lower [OF assms(1)] assms(2)
  by blast

subsection \<open>Referential integrity, step by step\<close>

lemma laneMap_moved_state:
  "laneMap (s \<lparr> lanes := Some L, lastUpdated := lu \<rparr>) = L"
  by (simp add: laneMap_def)

lemma itemMap_moved_state:
  "itemMap (s \<lparr> lanes := Some L, lastUpdated := lu \<rparr>) = itemMap s"
  by (simp add: itemMap_def)

lemma ref_integrity_handle:
  assumes "ref_integrity s" "known_ref s m" "handle now s m = Inr (s', evs)"
  shows "ref_integrity s'"
proof (cases m)
  case Board_pull
  with assms show ?thesis by (auto simp: board_pull_def)
next
  case (Board_update c)
  with assms show ?thesis
    by (auto simp: board_update_def update_accepted_def stamp_def split: if_splits)
next
  case (Item_patch pm)
  with assms(3) have ip: "item_patch now s pm = Inr (s', evs)" by simp
  from assms(2) Item_patch have ni: "\<And>i. pm_id pm = Some i \<Longrightarrow> \<not> inherited s i" by simp
  from item_patch_lanes [OF ip] have "laneMap s' = laneMap s" by (simp add: laneMap_def)
  with item_patch_dom [OF ip ni] assms(1) show ?thesis
    by (simp add: ref_integrity_def laneIds_def)
next
  case (Lanes_move mm)
  with assms(3) have lm: "lanes_move now s mm = Inr (s', evs)" by simp
  from lanes_move_result [OF lm] show ?thesis
  proof
    assume "s' = s \<and> evs = []"
    with assms(1) show ?thesis by simp
  next
    assume "\<exists>i f t. move_accepted mm \<and> mv_id mm = Some i \<and> mv_from mm = Some f \<and>
              mv_to mm = Some t \<and> lane_readable s f \<and> lane_readable s t \<and>
              s' = s \<lparr> lanes := Some (moved s i f t (mv_index mm)),
                       lastUpdated := Some (orElse (mv_mtime mm) now) \<rparr> \<and>
              evs = [Bcast_lanes_move_apply i f t (mv_index mm) (orElse (mv_mtime mm) now)]"
    then obtain i f t where acc: "move_accepted mm" and i: "mv_id mm = Some i"
      and s': "s' = s \<lparr> lanes := Some (moved s i f t (mv_index mm)),
                        lastUpdated := Some (orElse (mv_mtime mm) now) \<rparr>"
      by blast
    from s' have lm': "laneMap s' = moved s i f t (mv_index mm)"
      and im': "itemMap s' = itemMap s"
      by (simp_all add: laneMap_moved_state itemMap_moved_state)
    from assms(1,2) Lanes_move acc i have "i \<in> laneIds s" by (simp add: ref_integrity_def)
    from laneIds_moved [OF lm' this] im' assms(1) show ?thesis
      by (simp add: ref_integrity_def)
  qed
qed

lemma ref_integrity_run:
  "ref_integrity s \<Longrightarrow> run_ok known_ref s ms \<Longrightarrow> ref_integrity (run s ms)"
proof (induction ms arbitrary: s)
  case Nil
  then show ?case by simp
next
  case (Cons a ms)
  obtain now m where a: "a = (now, m)" by (cases a)
  show ?case
  proof (cases "handle now s m")
    case (Inl e)
    with a Cons.prems show ?thesis by simp
  next
    case (Inr r)
    obtain s' evs where r: "r = (s', evs)" by (cases r)
    from Cons.prems a have k: "known_ref s m" by simp
    from Inr r have h: "handle now s m = Inr (s', evs)" by simp
    from ref_integrity_handle [OF Cons.prems(1) k h] have "ref_integrity s'" .
    moreover from Cons.prems(2) a Inr r have "run_ok known_ref s' ms" by simp
    ultimately have "ref_integrity (run s' ms)" by (rule Cons.IH)
    with a Inr r show ?thesis by simp
  qed
qed

lemma ref_integrity_init: "ref_integrity (initState t0)"
  by (auto simp: ref_integrity_def laneIds_def initState_def laneMap_def itemMap_def
           split: if_splits)

lemma ref_integrity_board_I1: "ref_integrity (board_I1 t)"
  by (auto simp: ref_integrity_def laneIds_def board_I1_def laneMap_def itemMap_def
           split: if_splits)

subsection \<open>Single-lane membership, step by step\<close>

lemma count_moved_other:
  assumes "j \<noteq> i" "laneMap s l = Some xs"
  shows "\<exists>ys. moved s i f t ix l = Some ys \<and> count_list ys j = count_list xs j"
  using assms
  by (auto simp: moved_def laneOf_def count_insert_at count_filter_neq)

lemma set_moved_back:
  assumes "j \<noteq> i" "moved s i f t ix l = Some ys" "j \<in> set ys"
  shows "\<exists>xs. laneMap s l = Some xs \<and> j \<in> set xs"
proof (cases "l = t")
  case True
  with assms have "j \<in> set (laneOf s t)" by (auto simp: moved_to set_insert_at)
  with True show ?thesis by (cases "laneMap s t") (simp_all add: laneOf_def)
next
  case nt: False
  show ?thesis
  proof (cases "l = f")
    case True
    with assms nt have "j \<in> set (laneOf s f)" by (auto simp: moved_from)
    with True show ?thesis by (cases "laneMap s f") (simp_all add: laneOf_def)
  next
    case False
    with nt assms show ?thesis by (simp add: moved_other)
  qed
qed

lemma only_in_lane_moved_other:
  assumes "only_in_lane s j l" "j \<noteq> i" "laneMap s' = moved s i f t ix"
  shows "only_in_lane s' j l"
proof -
  from assms(1) obtain xs where xs: "laneMap s l = Some xs" "count_list xs j = 1"
    and others: "\<And>l' xs'. l' \<noteq> l \<Longrightarrow> laneMap s l' = Some xs' \<Longrightarrow> j \<notin> set xs'"
    unfolding only_in_lane_def by blast
  from count_moved_other [OF assms(2) xs(1)] xs(2)
  have here: "\<exists>ys. moved s i f t ix l = Some ys \<and> count_list ys j = 1" by simp
  have there: "j \<notin> set ys" if "l' \<noteq> l" "moved s i f t ix l' = Some ys" for l' ys
    using set_moved_back [OF assms(2) that(2)] others [OF that(1)] by blast
  show ?thesis
    unfolding only_in_lane_def
  proof (intro conjI allI impI)
    show "\<exists>xs. laneMap s' l = Some xs \<and> count_list xs j = 1"
      using here assms(3) by simp
  next
    fix l' xs'
    assume "l' \<noteq> l \<and> laneMap s' l' = Some xs'"
    with assms(3) have "l' \<noteq> l" "moved s i f t ix l' = Some xs'" by simp_all
    then show "j \<notin> set xs'" by (rule there)
  qed
qed

lemma only_in_lane_moved_id:
  assumes "only_in_lane s i l" "f \<noteq> t" "i \<in> set (laneOf s f)"
    and "laneMap s' = moved s i f t ix"
  shows "only_in_lane s' i t"
proof -
  from assms(3) obtain F where F: "laneMap s f = Some F" "i \<in> set F"
    by (cases "laneMap s f") (simp_all add: laneOf_def)
  from assms(1) have others: "\<And>l' xs'. l' \<noteq> l \<Longrightarrow> laneMap s l' = Some xs' \<Longrightarrow> i \<notin> set xs'"
    unfolding only_in_lane_def by blast
  have lf: "l = f"
  proof (rule ccontr)
    assume "l \<noteq> f"
    then have "f \<noteq> l" by simp
    from others [OF this F(1)] F(2) show False by simp
  qed
  have "i \<notin> set (laneOf s t)"
  proof (cases "laneMap s t")
    case None
    then show ?thesis by (simp add: laneOf_def)
  next
    case (Some T)
    from assms(2) lf have "t \<noteq> l" by simp
    from others [OF this Some] Some show ?thesis by (simp add: laneOf_def)
  qed
  then have "count_list (insert_at (laneOf s t) ix i) i = 1"
    by (simp add: count_insert_at)
  then have here: "\<exists>ys. moved s i f t ix t = Some ys \<and> count_list ys i = 1"
    by (simp add: moved_to)
  have there: "i \<notin> set ys" if "l' \<noteq> t" "moved s i f t ix l' = Some ys" for l' ys
  proof (cases "l' = f")
    case True
    with that(2) assms(2) have "ys = filter (\<lambda>x. x \<noteq> i) (laneOf s f)"
      by (simp add: moved_from)
    then show ?thesis by simp
  next
    case False
    with that have "laneMap s l' = Some ys" by (simp add: moved_other)
    moreover from False lf have "l' \<noteq> l" by simp
    ultimately show ?thesis by (rule others [rotated])
  qed
  show ?thesis
    unfolding only_in_lane_def
  proof (intro conjI allI impI)
    show "\<exists>xs. laneMap s' t = Some xs \<and> count_list xs i = 1"
      using here assms(4) by simp
  next
    fix l' xs'
    assume "l' \<noteq> t \<and> laneMap s' l' = Some xs'"
    with assms(4) have "l' \<noteq> t" "moved s i f t ix l' = Some xs'" by simp_all
    then show "i \<notin> set xs'" by (rule there)
  qed
qed

lemma single_lane_moved:
  assumes "single_lane s"
    and "i \<in> dom (itemMap s) \<Longrightarrow> f \<noteq> t \<and> i \<in> set (laneOf s f)"
    and "laneMap s' = moved s i f t ix" "itemMap s' = itemMap s"
  shows "single_lane s'"
  unfolding single_lane_def
proof (intro allI impI)
  fix j
  assume "j \<in> dom (itemMap s')"
  with assms(4) have j: "j \<in> dom (itemMap s)" by simp
  with assms(1) obtain l where l: "only_in_lane s j l" unfolding single_lane_def by blast
  show "\<exists>l. only_in_lane s' j l"
  proof (cases "j = i")
    case True
    with j assms(2) have "f \<noteq> t" "i \<in> set (laneOf s f)" by simp_all
    from only_in_lane_moved_id [OF _ this assms(3)] l True show ?thesis by blast
  next
    case False
    from only_in_lane_moved_other [OF l False assms(3)] show ?thesis by blast
  qed
qed

lemma single_lane_same_maps:
  assumes "single_lane s" "laneMap s' = laneMap s" "dom (itemMap s') = dom (itemMap s)"
  shows "single_lane s'"
  using assms by (simp add: single_lane_def only_in_lane_def)

lemma single_lane_handle:
  assumes "single_lane s" "from_holds s m" "handle now s m = Inr (s', evs)"
  shows "single_lane s'"
proof (cases m)
  case Board_pull
  with assms show ?thesis by (auto simp: board_pull_def)
next
  case (Board_update c)
  with assms show ?thesis
    by (auto simp: board_update_def update_accepted_def stamp_def split: if_splits)
next
  case (Item_patch pm)
  with assms(3) have ip: "item_patch now s pm = Inr (s', evs)" by simp
  from assms(2) Item_patch have ni: "\<And>i. pm_id pm = Some i \<Longrightarrow> \<not> inherited s i" by simp
  from item_patch_lanes [OF ip] have "laneMap s' = laneMap s" by (simp add: laneMap_def)
  from single_lane_same_maps [OF assms(1) this item_patch_dom [OF ip ni]] show ?thesis .
next
  case (Lanes_move mm)
  with assms(3) have lm: "lanes_move now s mm = Inr (s', evs)" by simp
  from lanes_move_result [OF lm] show ?thesis
  proof
    assume "s' = s \<and> evs = []"
    with assms(1) show ?thesis by simp
  next
    assume "\<exists>i f t. move_accepted mm \<and> mv_id mm = Some i \<and> mv_from mm = Some f \<and>
              mv_to mm = Some t \<and> lane_readable s f \<and> lane_readable s t \<and>
              s' = s \<lparr> lanes := Some (moved s i f t (mv_index mm)),
                       lastUpdated := Some (orElse (mv_mtime mm) now) \<rparr> \<and>
              evs = [Bcast_lanes_move_apply i f t (mv_index mm) (orElse (mv_mtime mm) now)]"
    then obtain i f t where acc: "move_accepted mm"
      and flds: "mv_id mm = Some i" "mv_from mm = Some f" "mv_to mm = Some t"
      and s': "s' = s \<lparr> lanes := Some (moved s i f t (mv_index mm)),
                        lastUpdated := Some (orElse (mv_mtime mm) now) \<rparr>"
      by blast
    from s' have lm': "laneMap s' = moved s i f t (mv_index mm)"
      and im': "itemMap s' = itemMap s"
      by (simp_all add: laneMap_moved_state itemMap_moved_state)
    from assms(2) Lanes_move acc flds
    have pre: "i \<in> dom (itemMap s) \<Longrightarrow> f \<noteq> t \<and> i \<in> set (laneOf s f)" by simp
    from single_lane_moved [OF assms(1) pre lm' im'] show ?thesis by simp
  qed
qed

lemma single_lane_run:
  "single_lane s \<Longrightarrow> run_ok from_holds s ms \<Longrightarrow> single_lane (run s ms)"
proof (induction ms arbitrary: s)
  case Nil
  then show ?case by simp
next
  case (Cons a ms)
  obtain now m where a: "a = (now, m)" by (cases a)
  show ?case
  proof (cases "handle now s m")
    case (Inl e)
    with a Cons.prems show ?thesis by simp
  next
    case (Inr r)
    obtain s' evs where r: "r = (s', evs)" by (cases r)
    from Cons.prems a have k: "from_holds s m" by simp
    from Inr r have h: "handle now s m = Inr (s', evs)" by simp
    from single_lane_handle [OF Cons.prems(1) k h] have "single_lane s'" .
    moreover from Cons.prems(2) a Inr r have "run_ok from_holds s' ms" by simp
    ultimately have "single_lane (run s' ms)" by (rule Cons.IH)
    with a Inr r show ?thesis by simp
  qed
qed

lemma single_lane_init: "single_lane (initState t0)"
  by (simp add: single_lane_def initState_def itemMap_def)

lemma single_lane_board_I1: "single_lane (board_I1 t)"
  by (auto simp: single_lane_def only_in_lane_def board_I1_def laneMap_def itemMap_def
           split: if_splits)

subsection \<open>Repeated patches, unknown ids and the clock\<close>

lemma map_add_twice: "(a ++ p) ++ p = a ++ p"
  by (rule ext) (simp add: map_add_def split: option.splits)

lemma item_patch_dropped:
  assumes "item_patch now s m = Inr (s', [])"
  shows "s' = s \<and> item_patch now2 s m = Inr (s, [])"
  using assms
  by (auto simp: item_patch_def Let_def split: option.splits sum.splits if_splits)

lemma item_patch_applied:
  assumes "item_patch now s m = Inr (s', ev # evs)"
  shows "\<exists>i p x. pm_id m = Some i \<and> pm_patch m = Some p \<and> i \<noteq> [] \<and>
           item_get s i = Inr x \<and> \<not> falsy x \<and>
           s' = (if x = ProtoAccessor
                 then s \<lparr> items_proto := Some (spread s x ++ p) \<rparr>
                 else s \<lparr> items := Some ((itemMap s)(i \<mapsto> spread s x ++ p)) \<rparr>)
                \<lparr> lastUpdated := Some (orElse (pm_mtime m) now) \<rparr>"
  using assms
  by (auto simp: item_patch_def truthy_def Let_def split: option.splits sum.splits if_splits)

lemma item_get_accessor:
  "item_get s i = Inr ProtoAccessor \<Longrightarrow> i = ''__proto__'' \<and> itemMap s i = None"
  by (auto simp: item_get_def itemMap_def split: option.splits if_splits)

lemma item_patch_twice:
  assumes "pm_id m = Some ''__proto__'' \<Longrightarrow> ''__proto__'' \<in> dom (itemMap s)"
    and "item_patch now1 s m = Inr (s1, evs1)"
  shows "\<exists>s2 evs2. item_patch now2 s1 m = Inr (s2, evs2) \<and>
           s2 = s1 \<lparr> lastUpdated := lastUpdated s2 \<rparr> \<and>
           (evs1 \<noteq> [] \<longrightarrow> lastUpdated s2 = Some (orElse (pm_mtime m) now2)) \<and>
           (evs1 = [] \<longrightarrow> s2 = s1)"
proof (cases evs1)
  case Nil
  with assms(2) item_patch_dropped [of now1 s m s1 now2] show ?thesis by simp
next
  case (Cons ev evs)
  with assms(2) item_patch_applied [of now1 s m s1 ev evs]
  obtain i p x where ip: "pm_id m = Some i" "pm_patch m = Some p" "i \<noteq> []"
    and x: "item_get s i = Inr x"
    and s1: "s1 = (if x = ProtoAccessor
                   then s \<lparr> items_proto := Some (spread s x ++ p) \<rparr>
                   else s \<lparr> items := Some ((itemMap s)(i \<mapsto> spread s x ++ p)) \<rparr>)
                  \<lparr> lastUpdated := Some (orElse (pm_mtime m) now1) \<rparr>"
    by blast
  have "x \<noteq> ProtoAccessor"
  proof
    assume "x = ProtoAccessor"
    with x item_get_accessor have "i = ''__proto__''" "itemMap s i = None" by blast+
    with assms(1) ip(1) show False by auto
  qed
  with s1 have its1: "items s1 = Some ((itemMap s)(i \<mapsto> spread s x ++ p))"
    and s1': "s1 = s \<lparr> items := Some ((itemMap s)(i \<mapsto> spread s x ++ p)),
                       lastUpdated := Some (orElse (pm_mtime m) now1) \<rparr>"
    by simp_all
  have here: "((itemMap s)(i \<mapsto> spread s x ++ p)) i = Some (spread s x ++ p)" by simp
  have upd: "((itemMap s)(i \<mapsto> spread s x ++ p))(i \<mapsto> (spread s x ++ p) ++ p)
               = (itemMap s)(i \<mapsto> spread s x ++ p)"
    by (simp add: map_add_twice)
  have r2: "item_patch now2 s1 m =
          Inr (s1 \<lparr> items := Some (((itemMap s)(i \<mapsto> spread s x ++ p))
                                      (i \<mapsto> (spread s x ++ p) ++ p)),
                    lastUpdated := Some (orElse (pm_mtime m) now2) \<rparr>,
               [Bcast_item_patch_apply i p (orElse (pm_mtime m) now2)])"
    by (rule item_patch_own [OF ip its1 here])
  have same: "s1 \<lparr> items := Some ((itemMap s)(i \<mapsto> spread s x ++ p)),
             lastUpdated := Some (orElse (pm_mtime m) now2) \<rparr>
        = s1 \<lparr> lastUpdated := Some (orElse (pm_mtime m) now2) \<rparr>"
    using its1 by (cases s1) simp
  from r2 have "item_patch now2 s1 m =
          Inr (s1 \<lparr> lastUpdated := Some (orElse (pm_mtime m) now2) \<rparr>,
               [Bcast_item_patch_apply i p (orElse (pm_mtime m) now2)])"
    by (simp only: upd same)
  with Cons show ?thesis by simp
qed


lemma stamp_Some: "lastUpdated s = Some n \<Longrightarrow> stamp s = n"
  by (simp add: stamp_def orElse_def)

lemma lanes_move_applied_stamp:
  assumes "lanes_move now s m = Inr (s', ev # evs)"
  shows "lastUpdated s' = Some (orElse (mv_mtime m) now)"
  using lanes_move_result [OF assms] by auto

subsection \<open>Names that an object inherits\<close>

text \<open>
  What the handlers do on the inputs the well-formedness conditions exclude: an id that
  \<open>items\<close> only inherits passes the guard of \<^verbatim>\<open>item:patch\<close> and becomes a new key; a
  lane name that \<open>lanes\<close> only inherits, or a board without \<open>lanes\<close> or \<open>items\<close>, makes
  the handler throw, with the store as it was.
\<close>

lemma item_patch_inherited_id_adds_key:
  "itemMap (run (board_I1 1000) [(2000, Item_patch (patch_of ''constructor'' (Some 2000)))])
     ''constructor'' = Some [''altitude'' \<mapsto> Str ''FL350''] \<and>
   lastUpdated (run (board_I1 1000) [(2000, Item_patch (patch_of ''constructor'' (Some 2000)))])
     = Some 2000"
  by (simp add: eval_defs)

lemma item_patch_proto_replaces_prototype:
  "itemMap (run (board_I1 1000) [(2000, Item_patch (patch_of ''__proto__'' (Some 2000)))])
     = itemMap (board_I1 1000) \<and>
   items_proto (run (board_I1 1000) [(2000, Item_patch (patch_of ''__proto__'' (Some 2000)))])
     = Some [''altitude'' \<mapsto> Str ''FL350''] \<and>
   lastUpdated (run (board_I1 1000) [(2000, Item_patch (patch_of ''__proto__'' (Some 2000)))])
     = Some 2000"
  by (simp add: eval_defs)

lemma lanes_move_inherited_lane_throws:
  "lanes_move 2001 (board_I1 2000) (move_I1 ''constructor'' ''Piarco'' None (Some 2001))
     = Inl TypeError \<and>
   lanes_move 2001 (board_I1 2000) (move_I1 ''Unassigned'' ''toString'' None (Some 2001))
     = Inl TypeError \<and>
   run (board_I1 2000)
     [(2001, Lanes_move (move_I1 ''constructor'' ''Piarco'' None (Some 2001)))] = board_I1 2000"
  by (simp add: eval_defs)

lemma handlers_throw_without_lanes_or_items:
  "lanes_move 2001 (board_I1 2000 \<lparr> lanes := None \<rparr>)
       (move_I1 ''Unassigned'' ''Piarco'' None (Some 2001)) = Inl TypeError \<and>
   item_patch 2001 (board_I1 2000 \<lparr> items := None \<rparr>) (patch_I1 (Some 2001)) = Inl TypeError"
  by (simp add: eval_defs)

lemma server_move_unknown_lane:
  "laneMap (run (board_I1 2000)
       [(2001, Lanes_move (move_I1 ''Unassigned'' ''Holding'' None (Some 2001)))]) ''Holding''
     = Some [''I1'']"
  by (simp add: eval_defs)

text \<open>
  Why repeating a patch is not idempotent for the id \<open>__proto__\<close>: the first
  application installs the patch as the prototype of \<open>items\<close>; when the patch itself has
  a field \<open>__proto__\<close>, the second application finds that field through the new
  prototype and stores an own key.
\<close>

lemma item_patch_proto_twice_adds_key:
  "itemMap (run (board_I1 1000)
      [(2000, Item_patch \<lparr> pm_id = Some ''__proto__'',
                            pm_patch = Some [''__proto__'' \<mapsto> Str ''x''],
                            pm_mtime = Some 1500 \<rparr>)]) ''__proto__'' = None \<and>
   itemMap (run (board_I1 1000)
      [(2000, Item_patch \<lparr> pm_id = Some ''__proto__'',
                            pm_patch = Some [''__proto__'' \<mapsto> Str ''x''],
                            pm_mtime = Some 1500 \<rparr>),
       (3000, Item_patch \<lparr> pm_id = Some ''__proto__'',
                            pm_patch = Some [''__proto__'' \<mapsto> Str ''x''],
                            pm_mtime = Some 1500 \<rparr>)]) ''__proto__'' \<noteq> None"
  by (simp add: eval_defs)

section \<open>The coarse update: last write wins\<close>

text \<open>
  C3. \<open>replaceIfNewer\<close>, the \<^verbatim>\<open>board:update\<close> handler: for every stored state and
  every candidate, the candidate is installed, and broadcast to the other connections,
  if and only if its \<open>lastUpdated\<close> is greater than or equal to the stored one (a tie is
  accepted); otherwise the stored state is unchanged and nothing is emitted. A missing
  \<open>lastUpdated\<close> is read as \<open>0\<close>.
\<close>

theorem board_update_accepts_iff_not_older:
  "board_update s c =
     (if (case lastUpdated c of None \<Rightarrow> 0 | Some a \<Rightarrow> a)
           \<ge> (case lastUpdated s of None \<Rightarrow> 0 | Some b \<Rightarrow> b)
      then (c, [Bcast_board_state c])
      else (s, []))"
  by (simp add: board_update_def orElse_zero)

text \<open>
  C7. Last write wins, whatever the arrival order: for a stored state whose \<open>lastUpdated\<close>
  is at most \<open>T1\<close> and two snapshots with timestamps \<open>T1 < T2\<close>, handling both
  \<^verbatim>\<open>board:update\<close> messages in either order leaves the store equal to the snapshot
  of \<open>T2\<close>.
\<close>

theorem board_update_order_independent:
  assumes "lastUpdated p1 = Some T1" and "lastUpdated p2 = Some T2" and "T1 < T2"
    and "stamp s \<le> T1"
  shows "fst (board_update (fst (board_update s p1)) p2) = p2 \<and>
         fst (board_update (fst (board_update s p2)) p1) = p2"
  using assms by (simp add: board_update_def orElse_zero stamp_def)

theorem board_update_order_independent_witness:
  "fst (board_update (fst (board_update (initState 1000) (board_I1 2000)))
         (board_I1 3000 \<lparr> lanes := Some Map.empty \<rparr>))
     = board_I1 3000 \<lparr> lanes := Some Map.empty \<rparr> \<and>
   fst (board_update (fst (board_update (initState 1000) (board_I1 3000 \<lparr> lanes := Some Map.empty \<rparr>)))
         (board_I1 2000))
     = board_I1 3000 \<lparr> lanes := Some Map.empty \<rparr>"
  using board_update_order_independent
    [of "board_I1 2000" 2000 "board_I1 3000 \<lparr> lanes := Some Map.empty \<rparr>" 3000 "initState 1000"]
  by (simp add: board_I1_def initState_def orElse_def stamp_def)

section \<open>Referential integrity\<close>

text \<open>
  The claim C1 as stated, for every state the server reaches from its initial state,
  fails: \<^verbatim>\<open>lanes:move\<close> only checks that \<open>id\<close>, \<open>from\<close> and \<open>to\<close> are present, so a
  move of an id that is no key of \<open>items\<close> puts that id into a lane.
\<close>

theorem ref_integrity_broken_by_unknown_id:
  "\<not> ref_integrity (run (initState 1000)
       [(1001, Lanes_move (move_I1 ''Unassigned'' ''Piarco'' None (Some 1001)))])"
proof -
  have l: "laneMap (run (initState 1000)
       [(1001, Lanes_move (move_I1 ''Unassigned'' ''Piarco'' None (Some 1001)))]) ''Piarco''
       = Some [''I1'']"
    by (simp add: eval_defs)
  have i: "itemMap (run (initState 1000)
       [(1001, Lanes_move (move_I1 ''Unassigned'' ''Piarco'' None (Some 1001)))]) = Map.empty"
    by (simp add: eval_defs)
  from l have "''I1'' \<in> laneIds (run (initState 1000)
       [(1001, Lanes_move (move_I1 ''Unassigned'' ''Piarco'' None (Some 1001)))])"
    unfolding laneIds_def by fastforce
  with i show ?thesis unfolding ref_integrity_def by auto
qed

text \<open>
  C1, amended. Referential integrity holds in every state the server reaches from its
  initial state through a run in which every accepted \<^verbatim>\<open>board:update\<close> snapshot has
  referential integrity itself, every \<^verbatim>\<open>lanes:move\<close> that passes the guard names an id
  that is a key of \<open>items\<close> when it arrives, and no \<^verbatim>\<open>item:patch\<close> names an id that
  \<open>items\<close> does not have but inherits, such as \<open>constructor\<close> (\<open>known_ref\<close>). Then the
  set of ids in the lanes equals the key set of \<open>items\<close>, also where a handler throws and
  ends the run.
\<close>

theorem ref_integrity_reachable:
  "run_ok known_ref (initState t0) ms \<Longrightarrow> ref_integrity (run (initState t0) ms)"
  by (rule ref_integrity_run [OF ref_integrity_init])

theorem ref_integrity_reachable_witness:
  "run_ok known_ref (initState 1000)
     [(1001, Board_update (board_I1 1001)),
      (1002, Lanes_move (move_I1 ''Unassigned'' ''Piarco'' (Some 0) (Some 1002))),
      (1003, Item_patch (patch_I1 (Some 1003)))] \<and>
   ref_integrity (run (initState 1000)
     [(1001, Board_update (board_I1 1001)),
      (1002, Lanes_move (move_I1 ''Unassigned'' ''Piarco'' (Some 0) (Some 1002))),
      (1003, Item_patch (patch_I1 (Some 1003)))])"
proof -
  have ok: "run_ok known_ref (initState 1000)
     [(1001, Board_update (board_I1 1001)),
      (1002, Lanes_move (move_I1 ''Unassigned'' ''Piarco'' (Some 0) (Some 1002))),
      (1003, Item_patch (patch_I1 (Some 1003)))]"
    using ref_integrity_board_I1 [of 1001]
    by (simp add: eval_defs)
  from ref_integrity_reachable [OF ok] ok show ?thesis by simp
qed

section \<open>Single-lane membership\<close>

text \<open>
  The claim C2 as stated fails: the server does not check that lane \<open>from\<close> holds the
  id it is asked to move. After a snapshot with \<open>I1\<close> in \<open>Unassigned\<close>, a move of
  \<open>I1\<close> from \<open>Curacao\<close> to \<open>Piarco\<close> leaves \<open>I1\<close> in two lanes.
\<close>

theorem single_lane_broken_by_wrong_from:
  "\<not> single_lane (run (initState 1000)
       [(1001, Board_update (board_I1 1001)),
        (1002, Lanes_move (move_I1 ''Curacao'' ''Piarco'' None (Some 1002)))])"
proof
  let ?S = "run (initState 1000)
       [(1001, Board_update (board_I1 1001)),
        (1002, Lanes_move (move_I1 ''Curacao'' ''Piarco'' None (Some 1002)))]"
  assume sl: "single_lane ?S"
  have U: "laneMap ?S ''Unassigned'' = Some [''I1'']"
    and P: "laneMap ?S ''Piarco'' = Some [''I1'']"
    and I: "''I1'' \<in> dom (itemMap ?S)"
    by (simp_all add: eval_defs)
  from sl I obtain l where "only_in_lane ?S ''I1'' l"
    unfolding single_lane_def by blast
  then have others: "\<And>l' xs'. l' \<noteq> l \<Longrightarrow> laneMap ?S l' = Some xs' \<Longrightarrow> ''I1'' \<notin> set xs'"
    unfolding only_in_lane_def by blast
  show False
  proof (cases "l = ''Unassigned''")
    case True
    then have "''Piarco'' \<noteq> l" by simp
    from others [OF this P] show False by simp
  next
    case False
    then have "''Unassigned'' \<noteq> l" by simp
    from others [OF this U] show False by simp
  qed
qed

text \<open>
  A move whose \<open>from\<close> and \<open>to\<close> are the same lane is a case apart: the object
  literal \<open>{ ...lanes, [from]: fromArr, [to]: toArr }\<close> writes the same key twice and
  the second write wins, so the filtered array is lost and the id is inserted next to
  its old occurrence.
\<close>

lemma lanes_move_same_lane_duplicates:
  "laneMap (run (board_I1 1001)
       [(1002, Lanes_move (move_I1 ''Unassigned'' ''Unassigned'' None (Some 1002)))])
     ''Unassigned'' = Some [''I1'', ''I1'']"
  by (simp add: eval_defs)

text \<open>
  C2, amended. Single-lane membership holds in every state the server reaches from its
  initial state through a run in which every accepted \<^verbatim>\<open>board:update\<close> snapshot has
  single-lane membership itself, every \<^verbatim>\<open>lanes:move\<close> that passes the guard with an id
  that is a key of \<open>items\<close> names two different lanes, the first of which holds the id
  when the message arrives, and no \<^verbatim>\<open>item:patch\<close> names an id that \<open>items\<close> does not
  have but inherits, such as \<open>constructor\<close> (\<open>from_holds\<close>): every key of \<open>items\<close> then
  occurs exactly once in exactly one lane.
\<close>

theorem single_lane_reachable:
  "run_ok from_holds (initState t0) ms \<Longrightarrow> single_lane (run (initState t0) ms)"
  by (rule single_lane_run [OF single_lane_init])

theorem single_lane_reachable_witness:
  "run_ok from_holds (initState 1000)
     [(1001, Board_update (board_I1 1001)),
      (1002, Lanes_move (move_I1 ''Unassigned'' ''Piarco'' (Some 0) (Some 1002))),
      (1003, Item_patch (patch_I1 (Some 1003)))] \<and>
   single_lane (run (initState 1000)
     [(1001, Board_update (board_I1 1001)),
      (1002, Lanes_move (move_I1 ''Unassigned'' ''Piarco'' (Some 0) (Some 1002))),
      (1003, Item_patch (patch_I1 (Some 1003)))])"
proof -
  have ok: "run_ok from_holds (initState 1000)
     [(1001, Board_update (board_I1 1001)),
      (1002, Lanes_move (move_I1 ''Unassigned'' ''Piarco'' (Some 0) (Some 1002))),
      (1003, Item_patch (patch_I1 (Some 1003)))]"
    using single_lane_board_I1 [of 1001]
    by (simp add: eval_defs)
  from single_lane_reachable [OF ok] ok show ?thesis by simp
qed

section \<open>The lane move\<close>




section \<open>The client mirror and unknown references\<close>

text \<open>
  C5. The claim: no inbound \<^verbatim>\<open>item:patch:apply\<close> or \<^verbatim>\<open>lanes:move:apply\<close> makes the
  client handler raise, and an id or lane the mirror does not know is skipped. The client
  handlers lack the guards of the server's (\<open>lanes[from] || []\<close>, \<open>!items[id]\<close>): on
  the board of the example, a move-apply whose \<open>to\<close> or \<open>from\<close> is a lane the mirror
  does not have throws a TypeError, and a patch-apply for an unknown id stores a new item
  made of the patch alone.
\<close>

theorem client_apply_unknown_reference:
  "lanes_move_apply 2001 (board_I1 2000) ''I1'' ''Unassigned'' ''Holding'' None (Some 2001)
     = Inl TypeError \<and>
   lanes_move_apply 2001 (board_I1 2000) ''I1'' ''Holding'' ''Piarco'' None (Some 2001)
     = Inl TypeError \<and>
   item_patch_apply 2001 (board_I1 2000) ''I9'' [''altitude'' \<mapsto> Str ''FL350''] (Some 2001)
     = Inr (board_I1 2000
              \<lparr> items := Some [''I1'' \<mapsto> item_JBU123, ''I9'' \<mapsto> [''altitude'' \<mapsto> Str ''FL350'']],
                lastUpdated := Some 2001 \<rparr>)"
  by (simp add: lanes_move_apply_def item_patch_apply_def eval_defs)

section \<open>Unknown ids\<close>




section \<open>Repeating a patch\<close>

text \<open>
  The claim C8 as stated fails in its \<open>lastUpdated\<close> part: with \<open>mtime\<close> equal to
  \<open>0\<close> or missing, \<open>mtime || Date.now()\<close> reads the clock at each application.
\<close>

theorem item_patch_twice_clock_differs:
  "lastUpdated (run (board_I1 1000) [(2000, Item_patch (patch_I1 (Some 0)))]) = Some 2000 \<and>
   lastUpdated (run (board_I1 1000)
      [(2000, Item_patch (patch_I1 (Some 0))), (3000, Item_patch (patch_I1 (Some 0)))])
     = Some 3000 \<and>
   lastUpdated (run (board_I1 1000) [(2000, Item_patch (patch_I1 None))]) = Some 2000 \<and>
   lastUpdated (run (board_I1 1000)
      [(2000, Item_patch (patch_I1 None)), (3000, Item_patch (patch_I1 None))])
     = Some 3000"
  by (simp add: eval_defs)

text \<open>
  C8, amended. For every state containing item \<open>id\<close>, and more generally for every
  state and every id except \<open>__proto__\<close> where \<open>items\<close> has no such key, applying the same
  \<open>{id, patch, mtime}\<close> twice through \<^verbatim>\<open>item:patch\<close> yields the same items as applying
  it once, at any two clock readings; when \<open>mtime\<close> is present and not \<open>0\<close> the whole
  board, \<open>lastUpdated\<close> included, is the same.
\<close>

theorem item_patch_idempotent:
  assumes "pm_id m = Some ''__proto__'' \<Longrightarrow> ''__proto__'' \<in> dom (itemMap s)"
  shows "items (run s [(now1, Item_patch m), (now2, Item_patch m)])
           = items (run s [(now1, Item_patch m)]) \<and>
         items_proto (run s [(now1, Item_patch m), (now2, Item_patch m)])
           = items_proto (run s [(now1, Item_patch m)]) \<and>
         (\<forall>t. pm_mtime m = Some t \<and> t \<noteq> 0 \<longrightarrow>
            run s [(now1, Item_patch m), (now2, Item_patch m)] = run s [(now1, Item_patch m)])"
proof (cases "item_patch now1 s m")
  case (Inl e)
  then show ?thesis by simp
next
  case (Inr r)
  obtain s1 evs1 where r: "r = (s1, evs1)" by (cases r)
  with Inr have first: "item_patch now1 s m = Inr (s1, evs1)" by simp
  from item_patch_twice [OF assms first, of now2]
  obtain s2 evs2 where second: "item_patch now2 s1 m = Inr (s2, evs2)"
    and s2: "s2 = s1 \<lparr> lastUpdated := lastUpdated s2 \<rparr>"
    and lu: "evs1 \<noteq> [] \<Longrightarrow> lastUpdated s2 = Some (orElse (pm_mtime m) now2)"
    and same: "evs1 = [] \<Longrightarrow> s2 = s1"
    by blast
  have once: "run s [(now1, Item_patch m)] = s1"
    and twice: "run s [(now1, Item_patch m), (now2, Item_patch m)] = s2"
    using first second by simp_all
  have its: "items s2 = items s1" "items_proto s2 = items_proto s1"
    by (subst s2, simp)+
  have "s2 = s1" if "pm_mtime m = Some t" "t \<noteq> 0" for t
  proof (cases "evs1 = []")
    case True
    then show ?thesis by (rule same)
  next
    case False
    then obtain ev evs where "evs1 = ev # evs" by (cases evs1) auto
    with first have "lastUpdated s1 = Some (orElse (pm_mtime m) now1)"
      by (simp add: item_patch_applied_stamp)
    with lu [OF False] that have "lastUpdated s2 = lastUpdated s1" by (simp add: orElse_def)
    with s2 show ?thesis by simp
  qed
  with its once twice show ?thesis by simp
qed

theorem item_patch_idempotent_witness:
  "items (run (board_I1 1000)
      [(2000, Item_patch (patch_I1 (Some 1500))), (3000, Item_patch (patch_I1 (Some 1500)))])
     = items (run (board_I1 1000) [(2000, Item_patch (patch_I1 (Some 1500)))]) \<and>
   run (board_I1 1000)
      [(2000, Item_patch (patch_I1 (Some 1500))), (3000, Item_patch (patch_I1 (Some 1500)))]
     = run (board_I1 1000) [(2000, Item_patch (patch_I1 (Some 1500)))] \<and>
   lastUpdated (run (board_I1 1000) [(2000, Item_patch (patch_I1 (Some 1500)))]) = Some 1500 \<and>
   itemMap (run (board_I1 1000) [(2000, Item_patch (patch_I1 (Some 1500)))]) ''I1''
     = Some (item_JBU123 ++ [''altitude'' \<mapsto> Str ''FL350''])"
proof -
  have h: "pm_id (patch_I1 (Some 1500)) = Some ''__proto__'' \<Longrightarrow>
           ''__proto__'' \<in> dom (itemMap (board_I1 1000))"
    by (simp add: patch_I1_def)
  have t: "pm_mtime (patch_I1 (Some 1500)) = Some 1500 \<and> (1500::int) \<noteq> 0"
    by (simp add: patch_I1_def)
  from item_patch_idempotent [of "patch_I1 (Some 1500)" "board_I1 1000" 2000 3000, OF h] t
  have "run (board_I1 1000)
      [(2000, Item_patch (patch_I1 (Some 1500))), (3000, Item_patch (patch_I1 (Some 1500)))]
     = run (board_I1 1000) [(2000, Item_patch (patch_I1 (Some 1500)))]"
    and "items (run (board_I1 1000)
      [(2000, Item_patch (patch_I1 (Some 1500))), (3000, Item_patch (patch_I1 (Some 1500)))])
     = items (run (board_I1 1000) [(2000, Item_patch (patch_I1 (Some 1500)))])"
    by blast+
  moreover have "lastUpdated (run (board_I1 1000) [(2000, Item_patch (patch_I1 (Some 1500)))])
      = Some 1500"
    and "itemMap (run (board_I1 1000) [(2000, Item_patch (patch_I1 (Some 1500)))]) ''I1''
     = Some (item_JBU123 ++ [''altitude'' \<mapsto> Str ''FL350''])"
    by (simp_all add: eval_defs)
  ultimately show ?thesis by simp
qed

section \<open>The clock\<close>

text \<open>
  The claim C9 as stated fails: an applied patch or move stores the \<open>mtime\<close> it carries,
  with no comparison, so an \<open>mtime\<close> older than the stored \<open>lastUpdated\<close> moves the
  clock back.
\<close>

theorem item_patch_can_lower_clock:
  "stamp (board_I1 1000) = 1000 \<and>
   stamp (run (board_I1 1000) [(2000, Item_patch (patch_I1 (Some 50)))]) = 50 \<and>
   stamp (run (board_I1 1000)
            [(2000, Lanes_move (move_I1 ''Unassigned'' ''Piarco'' None (Some 50)))]) = 50 \<and>
   \<not> stamp (board_I1 1000) \<le> stamp (run (board_I1 1000) [(2000, Item_patch (patch_I1 (Some 50)))])"
  by (simp add: eval_defs)

text \<open>
  C9, amended. An accepted \<^verbatim>\<open>board:update\<close> never lowers the timestamp. An
  \<^verbatim>\<open>item:patch\<close> or \<^verbatim>\<open>lanes:move\<close> that is applied, that is, returns without an
  exception and broadcasts, sets \<open>lastUpdated\<close> to the message's \<open>mtime\<close>, or to the
  server's clock reading when \<open>mtime\<close> is missing or \<open>0\<close>; the timestamp does not
  decrease exactly when that value is not older than the stored one.
\<close>

theorem clock_after_mutation:
  "(update_accepted s c \<longrightarrow> stamp s \<le> stamp (fst (board_update s c))) \<and>
   (item_patch now s pm = Inr (s1, ev1 # evs1) \<longrightarrow>
      lastUpdated s1 = Some (orElse (pm_mtime pm) now) \<and>
      (stamp s \<le> stamp s1) = (stamp s \<le> orElse (pm_mtime pm) now)) \<and>
   (lanes_move now s mm = Inr (s2, ev2 # evs2) \<longrightarrow>
      lastUpdated s2 = Some (orElse (mv_mtime mm) now) \<and>
      (stamp s \<le> stamp s2) = (stamp s \<le> orElse (mv_mtime mm) now))"
proof -
  have "stamp s \<le> stamp (fst (board_update s c))" if "update_accepted s c"
    using that by (simp add: board_update_def update_accepted_def stamp_def)
  moreover have "stamp s1 = orElse (pm_mtime pm) now"
    if "item_patch now s pm = Inr (s1, ev1 # evs1)"
    using item_patch_applied_stamp [OF that] by (rule stamp_Some)
  moreover have "stamp s2 = orElse (mv_mtime mm) now"
    if "lanes_move now s mm = Inr (s2, ev2 # evs2)"
    using lanes_move_applied_stamp [OF that] by (rule stamp_Some)
  ultimately show ?thesis
    using item_patch_applied_stamp [of now s pm s1 ev1 evs1]
      lanes_move_applied_stamp [of now s mm s2 ev2 evs2]
    by simp
qed

theorem clock_after_mutation_witness:
  "update_accepted (board_I1 2000) (board_I1 2500) \<and>
   stamp (board_I1 2000) \<le> stamp (fst (board_update (board_I1 2000) (board_I1 2500))) \<and>
   item_patch 3000 (board_I1 2000) (patch_I1 (Some 2500))
     = Inr (board_I1 2500 \<lparr> items := Some [''I1'' \<mapsto> item_JBU123 ++ [''altitude'' \<mapsto> Str ''FL350'']] \<rparr>,
            [Bcast_item_patch_apply ''I1'' [''altitude'' \<mapsto> Str ''FL350''] 2500]) \<and>
   lastUpdated (board_I1 2500 \<lparr> items := Some [''I1'' \<mapsto> item_JBU123 ++ [''altitude'' \<mapsto> Str ''FL350'']] \<rparr>)
     = Some 2500 \<and>
   lanes_move 3000 (board_I1 2000) (move_I1 ''Unassigned'' ''Piarco'' None None)
     = Inr (board_I1 2000
              \<lparr> lanes := Some (moved (board_I1 2000) ''I1'' ''Unassigned'' ''Piarco'' None),
                lastUpdated := Some 3000 \<rparr>,
            [Bcast_lanes_move_apply ''I1'' ''Unassigned'' ''Piarco'' None 3000]) \<and>
   lastUpdated (board_I1 2000
              \<lparr> lanes := Some (moved (board_I1 2000) ''I1'' ''Unassigned'' ''Piarco'' None),
                lastUpdated := Some 3000 \<rparr>) = Some 3000"
proof -
  have a: "update_accepted (board_I1 2000) (board_I1 2500)"
    by (simp add: eval_defs)
  have b: "item_patch 3000 (board_I1 2000) (patch_I1 (Some 2500))
     = Inr (board_I1 2500 \<lparr> items := Some [''I1'' \<mapsto> item_JBU123 ++ [''altitude'' \<mapsto> Str ''FL350'']] \<rparr>,
            [Bcast_item_patch_apply ''I1'' [''altitude'' \<mapsto> Str ''FL350''] 2500])"
    by (simp add: eval_defs)
  have c: "lanes_move 3000 (board_I1 2000) (move_I1 ''Unassigned'' ''Piarco'' None None)
     = Inr (board_I1 2000
              \<lparr> lanes := Some (moved (board_I1 2000) ''I1'' ''Unassigned'' ''Piarco'' None),
                lastUpdated := Some 3000 \<rparr>,
            [Bcast_lanes_move_apply ''I1'' ''Unassigned'' ''Piarco'' None 3000])"
    by (simp add: eval_defs moved_def)
  have d: "orElse (pm_mtime (patch_I1 (Some 2500))) 3000 = 2500"
    and e: "orElse (mv_mtime (move_I1 ''Unassigned'' ''Piarco'' None None)) 3000 = 3000"
    by (simp_all add: patch_I1_def move_I1_def orElse_def)
  from clock_after_mutation [of "board_I1 2000" "board_I1 2500" 3000 "patch_I1 (Some 2500)"
      "board_I1 2500 \<lparr> items := Some [''I1'' \<mapsto> item_JBU123 ++ [''altitude'' \<mapsto> Str ''FL350'']] \<rparr>"
      "Bcast_item_patch_apply ''I1'' [''altitude'' \<mapsto> Str ''FL350''] 2500" "[]"
      "move_I1 ''Unassigned'' ''Piarco'' None None"
      "board_I1 2000
              \<lparr> lanes := Some (moved (board_I1 2000) ''I1'' ''Unassigned'' ''Piarco'' None),
                lastUpdated := Some 3000 \<rparr>"
      "Bcast_lanes_move_apply ''I1'' ''Unassigned'' ''Piarco'' None 3000" "[]"]
    a b c d e
  show ?thesis by simp
qed

section \<open>A coarse update with no timestamp\<close>

text \<open>
  The claim C10 as stated fails where the stored \<open>lastUpdated\<close> is negative, which a
  \<^verbatim>\<open>lanes:move\<close> with a negative \<open>mtime\<close> brings about: a snapshot with timestamp
  \<open>0\<close> is then accepted although the stored timestamp is neither \<open>0\<close> nor missing.
\<close>

theorem zero_stamp_update_over_negative_clock:
  "lastUpdated (run (initState 1000)
       [(1001, Lanes_move (move_I1 ''Unassigned'' ''Piarco'' None (Some (- 1))))]) = Some (- 1) \<and>
   board_update (run (initState 1000)
       [(1001, Lanes_move (move_I1 ''Unassigned'' ''Piarco'' None (Some (- 1))))]) (board_I1 0)
     = (board_I1 0, [Bcast_board_state (board_I1 0)])"
  by (simp add: eval_defs)

text \<open>
  C10, amended. A \<^verbatim>\<open>board:update\<close> whose snapshot has no \<open>lastUpdated\<close>, or has
  \<open>lastUpdated = 0\<close>, is compared as timestamp \<open>0\<close>: it is installed and broadcast if
  and only if the stored \<open>lastUpdated\<close> is missing or at most \<open>0\<close>; for every stored
  state with a positive \<open>lastUpdated\<close> it is dropped, with the state unchanged and
  nothing emitted.
\<close>

theorem zero_stamp_update:
  assumes "lastUpdated c = None \<or> lastUpdated c = Some 0"
  shows "board_update s c =
           (if (case lastUpdated s of None \<Rightarrow> True | Some b \<Rightarrow> b \<le> 0)
            then (c, [Bcast_board_state c]) else (s, [])) \<and>
         (\<forall>b. lastUpdated s = Some b \<and> 0 < b \<longrightarrow> board_update s c = (s, []))"
  using assms by (auto simp: board_update_def orElse_def split: option.splits)

theorem zero_stamp_update_witness:
  "board_update (board_I1 1000) (board_I1 0) = (board_I1 1000, []) \<and>
   board_update (board_I1 0) (board_I1 0 \<lparr> lastUpdated := None \<rparr>)
     = (board_I1 0 \<lparr> lastUpdated := None \<rparr>, [Bcast_board_state (board_I1 0 \<lparr> lastUpdated := None \<rparr>)])"
  using zero_stamp_update [of "board_I1 0" "board_I1 1000"]
    zero_stamp_update [of "board_I1 0 \<lparr> lastUpdated := None \<rparr>" "board_I1 0"]
  by (simp add: board_I1_def)

end
